theory Spec2Isabelle
  imports Main "HOL-Library.Log_Nat" "HOL-Library.Sublist"
begin

section \<open>Python values: exceptions, floats, numbers\<close>

text \<open>
  The script \<^verbatim>\<open>script/lending/achieve_apy_goals.py\<close> is embedded function by function.
  Exceptions are values: a computation that may raise returns \<open>pyexc + 'a\<close>, with \<open>Inl\<close>
  the raised exception. Only subclasses of \<^verbatim>\<open>Exception\<close> are modelled, the ones the
  handlers of the script catch.
\<close>

datatype exc_class =
  ZeroDivisionError | OverflowError | ValueError | IndexError | TypeError | KeyError
  | CalledProcessError | OtherException

datatype pyexc = Exc exc_class string

fun str_exc :: "pyexc \<Rightarrow> string" where
  "str_exc (Exc c msg) = msg"

definition bind :: "pyexc + 'a \<Rightarrow> ('a \<Rightarrow> pyexc + 'b) \<Rightarrow> pyexc + 'b" where
  "bind m f = (case m of Inl e \<Rightarrow> Inl e | Inr x \<Rightarrow> f x)"

text \<open>
  A Python \<^verbatim>\<open>float\<close> is an IEEE 754 binary64 value: a finite value is kept as the rational
  it denotes, next to the two infinities and NaN. The two zeros are identified: the script
  only compares floats with \<open>0\<close>, subtracts, multiplies and truncates them, and a division
  by either zero raises. Every arithmetic operation is the exact rational operation followed
  by \<open>rnd\<close>, rounding to nearest with ties to even (53 bits of precision, exponents from
  \<open>-1022\<close> to \<open>1023\<close>, subnormals below).
\<close>

datatype pyfloat = Fin rat | PInf | NInf | NaN

definition ilog2 :: "rat \<Rightarrow> int" where
  \<comment> \<open>the binade of a non-zero \<open>x\<close>: \<open>2 powi ilog2 x \<le> \<bar>x\<bar> < 2 powi (ilog2 x + 1)\<close>\<close>
  "ilog2 x = (let (p, q) = quotient_of \<bar>x\<bar>; e = bitlen p - bitlen q
              in if 2 powi e \<le> \<bar>x\<bar> then e else e - 1)"

definition ulp :: "rat \<Rightarrow> rat" where
  "ulp x = 2 powi (max (- 1022) (ilog2 x) - 52)"

definition round_half_even :: "rat \<Rightarrow> int" where
  "round_half_even q =
     (let f = \<lfloor>q\<rfloor>; r = q - of_int f
      in if r < 1 / 2 then f else if 1 / 2 < r then f + 1 else if even f then f else f + 1)"

definition nearest :: "rat \<Rightarrow> rat" where
  "nearest x = of_int (round_half_even (x / ulp x)) * ulp x"

definition rnd :: "rat \<Rightarrow> pyfloat" where
  "rnd x = (let y = nearest x
            in if 2 ^ 1024 \<le> y then PInf else if y \<le> - (2 ^ 1024) then NInf else Fin y)"

text \<open>\<^verbatim>\<open>a / b\<close> on two ints: the correctly rounded quotient, or an exception.\<close>

definition int_truediv :: "int \<Rightarrow> int \<Rightarrow> pyexc + pyfloat" where
  "int_truediv a b =
     (if b = 0 then Inl (Exc ZeroDivisionError ''division by zero'')
      else case rnd (of_int a / of_int b) of
             Fin y \<Rightarrow> Inr (Fin y)
           | _ \<Rightarrow> Inl (Exc OverflowError ''integer division result too large for a float''))"

text \<open>The conversion of an int operand in a mixed \<^verbatim>\<open>float\<close>/\<^verbatim>\<open>int\<close> operation.\<close>

definition float_of_int :: "int \<Rightarrow> pyexc + pyfloat" where
  "float_of_int n =
     (case rnd (of_int n) of
        Fin y \<Rightarrow> Inr (Fin y)
      | _ \<Rightarrow> Inl (Exc OverflowError ''int too large to convert to float''))"

fun fmul :: "pyfloat \<Rightarrow> pyfloat \<Rightarrow> pyfloat" where
  "fmul (Fin a) (Fin b) = rnd (a * b)"
| "fmul NaN y = NaN"
| "fmul x NaN = NaN"
| "fmul PInf (Fin b) = (if b = 0 then NaN else if 0 < b then PInf else NInf)"
| "fmul NInf (Fin b) = (if b = 0 then NaN else if 0 < b then NInf else PInf)"
| "fmul (Fin a) PInf = (if a = 0 then NaN else if 0 < a then PInf else NInf)"
| "fmul (Fin a) NInf = (if a = 0 then NaN else if 0 < a then NInf else PInf)"
| "fmul PInf PInf = PInf"
| "fmul PInf NInf = NInf"
| "fmul NInf PInf = NInf"
| "fmul NInf NInf = PInf"

fun fsub :: "pyfloat \<Rightarrow> pyfloat \<Rightarrow> pyfloat" where
  "fsub (Fin a) (Fin b) = rnd (a - b)"
| "fsub NaN y = NaN"
| "fsub x NaN = NaN"
| "fsub PInf PInf = NaN"
| "fsub NInf NInf = NaN"
| "fsub PInf y = PInf"
| "fsub NInf y = NInf"
| "fsub (Fin a) PInf = NInf"
| "fsub (Fin a) NInf = PInf"

text \<open>\<^verbatim>\<open>x / y\<close> on two floats raises on a zero divisor, whatever the dividend.\<close>

fun fdiv :: "pyfloat \<Rightarrow> pyfloat \<Rightarrow> pyexc + pyfloat" where
  "fdiv x (Fin b) =
     (if b = 0 then Inl (Exc ZeroDivisionError ''float division by zero'')
      else case x of
             Fin a \<Rightarrow> Inr (rnd (a / b))
           | NaN \<Rightarrow> Inr NaN
           | PInf \<Rightarrow> Inr (if 0 < b then PInf else NInf)
           | NInf \<Rightarrow> Inr (if 0 < b then NInf else PInf))"
| "fdiv (Fin a) PInf = Inr (Fin 0)"
| "fdiv (Fin a) NInf = Inr (Fin 0)"
| "fdiv x y = Inr NaN"

definition fmul_int :: "pyfloat \<Rightarrow> int \<Rightarrow> pyexc + pyfloat" where
  "fmul_int x n = bind (float_of_int n) (\<lambda>y. Inr (fmul x y))"

definition fdiv_int :: "pyfloat \<Rightarrow> int \<Rightarrow> pyexc + pyfloat" where
  "fdiv_int x n = bind (float_of_int n) (\<lambda>y. fdiv x y)"

fun fgt0 :: "pyfloat \<Rightarrow> bool" where
  \<comment> \<open>\<^verbatim>\<open>x > 0\<close>\<close>
  "fgt0 (Fin a) = (0 < a)"
| "fgt0 PInf = True"
| "fgt0 NInf = False"
| "fgt0 NaN = False"

text \<open>
  A value that is an int on one path and a float on another, as \<^verbatim>\<open>current_util\<close> and
  \<^verbatim>\<open>additional_borrow\<close> are.
\<close>

datatype pynum = PyInt int | PyFloat pyfloat

definition max0 :: "pyfloat \<Rightarrow> pynum" where
  \<comment> \<open>\<^verbatim>\<open>max(0, x)\<close>: the first argument unless the second is greater\<close>
  "max0 x = (if fgt0 x then PyFloat x else PyInt 0)"

fun int_of_float :: "pyfloat \<Rightarrow> pyexc + int" where
  \<comment> \<open>\<^verbatim>\<open>int(x)\<close> truncates towards zero\<close>
  "int_of_float (Fin a) = Inr (if 0 \<le> a then \<lfloor>a\<rfloor> else \<lceil>a\<rceil>)"
| "int_of_float NaN = Inl (Exc ValueError ''cannot convert float NaN to integer'')"
| "int_of_float x = Inl (Exc OverflowError ''cannot convert float infinity to integer'')"

fun mul_num_int :: "pynum \<Rightarrow> int \<Rightarrow> pyexc + pynum" where
  "mul_num_int (PyInt a) n = Inr (PyInt (a * n))"
| "mul_num_int (PyFloat x) n = bind (fmul_int x n) (\<lambda>y. Inr (PyFloat y))"

fun int_of_num :: "pynum \<Rightarrow> pyexc + int" where
  "int_of_num (PyInt a) = Inr a"
| "int_of_num (PyFloat x) = int_of_float x"

section \<open>The convergence calculation (lines 97 to 109 of \<^verbatim>\<open>main\<close>)\<close>

record plan =
  total_liq_float :: pyfloat
  total_borr_float :: pyfloat
  current_util :: pynum
  target_borr :: pyfloat
  additional_borrow :: pynum
  additional_borrow_raw :: int

definition calculate :: "int \<Rightarrow> int \<Rightarrow> pyfloat \<Rightarrow> nat \<Rightarrow> pyexc + plan" where
  "calculate total_liq total_borr util_pct decimals_n =
     bind (int_truediv total_liq (10 ^ decimals_n)) (\<lambda>liq_f.
     bind (int_truediv total_borr (10 ^ decimals_n)) (\<lambda>borr_f.
     bind (if fgt0 liq_f
           then bind (fdiv borr_f liq_f) (\<lambda>q. bind (fmul_int q 100) (\<lambda>u. Inr (PyFloat u)))
           else Inr (PyInt 0)) (\<lambda>cur.
     bind (fdiv_int util_pct 100) (\<lambda>frac.
     let tgt = fmul liq_f frac;
         add = max0 (fsub tgt borr_f)
     in bind (mul_num_int add (10 ^ decimals_n)) (\<lambda>scaled.
        bind (int_of_num scaled) (\<lambda>raw.
        Inr \<lparr>total_liq_float = liq_f, total_borr_float = borr_f, current_util = cur,
             target_borr = tgt, additional_borrow = add, additional_borrow_raw = raw\<rparr>))))))"

section \<open>Strings\<close>

text \<open>
  Text is a list of characters; the output of the external tool is taken as already decoded
  ASCII text. \<open>py_isspace\<close> is the ASCII part of \<^verbatim>\<open>str.isspace\<close>.
\<close>

definition py_isspace :: "char \<Rightarrow> bool" where
  "py_isspace c = (let n = of_char c :: nat in (9 \<le> n \<and> n \<le> 13) \<or> (28 \<le> n \<and> n \<le> 32))"

definition py_strip :: "string \<Rightarrow> string" where
  "py_strip s = rev (dropWhile py_isspace (rev (dropWhile py_isspace s)))"

fun split_acc :: "string \<Rightarrow> string \<Rightarrow> string list" where
  "split_acc cur [] = (if cur = [] then [] else [cur])"
| "split_acc cur (c # cs) =
     (if py_isspace c then (if cur = [] then split_acc [] cs else cur # split_acc [] cs)
      else split_acc (cur @ [c]) cs)"

definition py_split :: "string \<Rightarrow> string list" where
  \<comment> \<open>\<^verbatim>\<open>s.split()\<close>: the maximal runs of non-whitespace characters\<close>
  "py_split s = split_acc [] s"

fun split_on_acc :: "char \<Rightarrow> string \<Rightarrow> string \<Rightarrow> string list" where
  "split_on_acc c cur [] = [cur]"
| "split_on_acc c cur (x # xs) =
     (if x = c then cur # split_on_acc c [] xs else split_on_acc c (cur @ [x]) xs)"

definition split_on :: "char \<Rightarrow> string \<Rightarrow> string list" where
  \<comment> \<open>\<^verbatim>\<open>s.split(c)\<close> for a single character \<open>c\<close>\<close>
  "split_on c s = split_on_acc c [] s"

fun contains :: "string \<Rightarrow> string \<Rightarrow> bool" where
  \<comment> \<open>\<^verbatim>\<open>sub in s\<close>\<close>
  "contains sub [] = (sub = [])"
| "contains sub (c # cs) = (prefix sub (c # cs) \<or> contains sub cs)"

definition index0 :: "'a list \<Rightarrow> pyexc + 'a" where
  \<comment> \<open>\<^verbatim>\<open>xs[0]\<close>\<close>
  "index0 xs = (case xs of [] \<Rightarrow> Inl (Exc IndexError ''list index out of range'') | x # _ \<Rightarrow> Inr x)"

definition digit_val :: "char \<Rightarrow> nat option" where
  "digit_val c = (let n = of_char c :: nat in if 48 \<le> n \<and> n \<le> 57 then Some (n - 48) else None)"

fun parse_digits :: "nat \<Rightarrow> bool \<Rightarrow> string \<Rightarrow> nat option" where
  \<comment> \<open>decimal digits, single underscores allowed between two digits\<close>
  "parse_digits acc after_digit [] = (if after_digit then Some acc else None)"
| "parse_digits acc after_digit (c # cs) =
     (case digit_val c of
        Some d \<Rightarrow> parse_digits (10 * acc + d) True cs
      | None \<Rightarrow> if c = CHR ''_'' \<and> after_digit then parse_digits acc False cs else None)"

definition int_of_str :: "string \<Rightarrow> pyexc + int" where
  \<comment> \<open>\<^verbatim>\<open>int(s)\<close> in base 10\<close>
  "int_of_str s =
     (let t = py_strip s;
          bad = Inl (Exc ValueError (''invalid literal for int() with base 10: '' @ s))
      in case t of
           [] \<Rightarrow> bad
         | c # cs \<Rightarrow>
             if c = CHR ''-'' then (case parse_digits 0 False cs of None \<Rightarrow> bad | Some n \<Rightarrow> Inr (- int n))
             else if c = CHR ''+'' then (case parse_digits 0 False cs of None \<Rightarrow> bad | Some n \<Rightarrow> Inr (int n))
             else (case parse_digits 0 False t of None \<Rightarrow> bad | Some n \<Rightarrow> Inr (int n)))"

definition digit_char :: "nat \<Rightarrow> char" where
  \<comment> \<open>only applied to \<open>d < 10\<close>\<close>
  "digit_char d = ''0123456789'' ! d"

function str_nat :: "nat \<Rightarrow> string" where
  "str_nat n = (if n < 10 then [digit_char n] else str_nat (n div 10) @ [digit_char (n mod 10)])"
  by pat_completeness auto
termination
  by (relation "measure id") auto

definition str_int :: "int \<Rightarrow> string" where
  \<comment> \<open>\<^verbatim>\<open>str(n)\<close>\<close>
  "str_int n = (if n < 0 then CHR ''-'' # str_nat (nat (- n)) else str_nat (nat n))"

section \<open>The external tool\<close>

text \<open>
  Every \<^verbatim>\<open>subprocess\<close> call runs the external tool \<^verbatim>\<open>cast\<close>, which talks to the network.
  What the tool answers is outside the program: a \<open>world\<close> gives the outcome of an
  invocation from everything that happened before it and its argument vector, so that
  the answers may depend on the history in any way. The run threads the history, a list
  of events: the entries into the two functions that touch the network and every
  invocation of the tool.
\<close>

datatype proc_result =
  Raises pyexc
  | Completed int string string \<comment> \<open>return code, standard output, standard error\<close>

datatype event =
  Call_get_pool_state string
  | Call_borrow_asset string int
  | Subprocess "string list"

type_synonym world = "event list \<Rightarrow> string list \<Rightarrow> proc_result"

definition LENDING_MANAGER :: string where
  "LENDING_MANAGER = ''0xbe2e1Fe2bdf3c4AC29DEc7d09d0E26F06f29585c''"

definition RPC_URL :: string where
  "RPC_URL = ''https://sepolia.base.org''"

definition check_output :: "world \<Rightarrow> string list \<Rightarrow> event list \<Rightarrow> (pyexc + string) \<times> event list" where
  \<comment> \<open>\<^verbatim>\<open>subprocess.check_output(argv).decode()\<close>: a non-zero return code raises\<close>
  "check_output w argv h =
     (case w h argv of
        Raises e \<Rightarrow> Inl e
      | Completed rc out err \<Rightarrow>
          if rc \<noteq> 0 then Inl (Exc CalledProcessError ''Command returned non-zero exit status'')
          else Inr out,
      h @ [Subprocess argv])"

definition subprocess_run :: "world \<Rightarrow> string option list \<Rightarrow> event list \<Rightarrow> (pyexc + string \<times> string) \<times> event list" where
  \<comment> \<open>\<^verbatim>\<open>subprocess.run(argv, capture_output=True, text=True, timeout=60)\<close>: an argument
      that is \<^verbatim>\<open>None\<close> raises before anything is started\<close>
  "subprocess_run w args h =
     (if None \<in> set args
      then (Inl (Exc TypeError ''expected str, bytes or os.PathLike object, not NoneType''), h)
      else let argv = map the args
           in (case w h argv of Raises e \<Rightarrow> Inl e | Completed rc out err \<Rightarrow> Inr (out, err),
               h @ [Subprocess argv]))"

definition first_token :: "string \<Rightarrow> pyexc + string" where
  \<comment> \<open>\<^verbatim>\<open>s.strip().split()[0]\<close>\<close>
  "first_token s = index0 (py_split (py_strip s))"

definition get_pool_state :: "world \<Rightarrow> string \<Rightarrow> event list \<Rightarrow> (pyexc + int \<times> int) \<times> event list" where
  "get_pool_state w token_address h0 =
     (let h = h0 @ [Call_get_pool_state token_address];
          (r1, h1) = check_output w
             [''cast'', ''call'', LENDING_MANAGER, ''totalLiquidity(address)(uint256)'',
              token_address, ''--rpc-url'', RPC_URL] h
      in case bind r1 first_token of
           Inl e \<Rightarrow> (Inl e, h1)
         | Inr total_liq \<Rightarrow>
             let (r2, h2) = check_output w
                [''cast'', ''call'', LENDING_MANAGER, ''totalBorrowed(address)(uint256)'',
                 token_address, ''--rpc-url'', RPC_URL] h1
             in case bind r2 first_token of
                  Inl e \<Rightarrow> (Inl e, h2)
                | Inr total_borr \<Rightarrow>
                    (bind (int_of_str total_liq) (\<lambda>a.
                     bind (int_of_str total_borr) (\<lambda>b. Inr (a, b))), h2))"

definition borrow_argv :: "string \<Rightarrow> string option \<Rightarrow> string \<Rightarrow> int \<Rightarrow> string option list" where
  \<comment> \<open>the argument list of the transaction; the private key is \<open>None\<close> when the
      environment does not define it\<close>
  "borrow_argv router private_key token_address amount =
     [Some ''cast'', Some ''send'', Some router, Some ''borrow(address,uint256)'',
      Some token_address, Some (str_int amount), Some ''--private-key'', private_key,
      Some ''--rpc-url'', Some RPC_URL, Some ''--gas-limit'', Some ''2000000'']"

definition borrow_body :: "world \<Rightarrow> string \<Rightarrow> string option \<Rightarrow> string \<Rightarrow> int \<Rightarrow> event list
    \<Rightarrow> (pyexc + bool \<times> string) \<times> event list" where
  \<comment> \<open>the \<^verbatim>\<open>try\<close> block of \<^verbatim>\<open>borrow_asset\<close>\<close>
  "borrow_body w router private_key token_address amount h =
     (let (r, h1) = subprocess_run w (borrow_argv router private_key token_address amount) h
      in (bind r (\<lambda>(out, err).
            if contains ''transactionHash'' out
            then bind (index0 (filter (contains ''transactionHash'') (split_on (CHR 0x0A) out)))
                   (\<lambda>tx_hash. Inr (True, tx_hash))
            else Inr (False, err)), h1))"

definition borrow_asset :: "world \<Rightarrow> string \<Rightarrow> string option \<Rightarrow> string \<Rightarrow> int \<Rightarrow> event list
    \<Rightarrow> (pyexc + bool \<times> string) \<times> event list" where
  \<comment> \<open>the \<^verbatim>\<open>except Exception\<close> handler turns every exception of the body into a result\<close>
  "borrow_asset w router private_key token_address amount h0 =
     (let (r, h1) = borrow_body w router private_key token_address amount
                      (h0 @ [Call_borrow_asset token_address amount])
      in (case r of Inl e \<Rightarrow> Inr (False, str_exc e) | Inr v \<Rightarrow> Inr v, h1))"

section \<open>The orchestrator\<close>

record asset_config =
  util :: pyfloat
  decimals :: nat
  status :: string

type_synonym outcome = "string \<times> string \<times> pynum"

type_synonym run_state = "event list \<times> outcome list"

definition process_asset :: "world \<Rightarrow> (string \<rightharpoonup> string) \<Rightarrow> string \<Rightarrow> string option
    \<Rightarrow> run_state \<Rightarrow> string \<times> asset_config \<Rightarrow> run_state" where
  \<comment> \<open>one iteration of the loop of \<^verbatim>\<open>main\<close>; console progress lines are not modelled\<close>
  "process_asset w deployments router private_key st entry =
     (let (h, results) = st; (asset, config) = entry
      in if status config = ''achieved'' then (h, results)
         else case deployments asset of
                None \<Rightarrow> (h, results)
              | Some token_address \<Rightarrow>
                  if token_address = [] then (h, results)
                  else
                    let (r, h1) = get_pool_state w token_address h
                    in case bind r (\<lambda>(total_liq, total_borr).
                                calculate total_liq total_borr (util config) (decimals config)) of
                         Inl e \<Rightarrow> (h1, results @ [(asset, ''error'', PyInt 0)])
                       | Inr p \<Rightarrow>
                           if 0 < additional_borrow_raw p
                           then
                             let (r2, h2) = borrow_asset w router private_key token_address
                                              (additional_borrow_raw p) h1
                             in case r2 of
                                  Inl e \<Rightarrow> (h2, results @ [(asset, ''error'', PyInt 0)])
                                | Inr (success, res) \<Rightarrow>
                                    if success
                                    then (h2, results @ [(asset, ''success'', additional_borrow p)])
                                    else (h2, results @ [(asset, ''failed'', additional_borrow p)])
                           else (h1, results @ [(asset, ''no_action'', PyInt 0)]))"

definition main_loop :: "world \<Rightarrow> (string \<rightharpoonup> string) \<Rightarrow> string \<Rightarrow> string option
    \<Rightarrow> (string \<times> asset_config) list \<Rightarrow> run_state" where
  "main_loop w deployments router private_key tgts =
     foldl (process_asset w deployments router private_key) ([], []) tgts"

datatype summary_line =
  Borrowed string pynum
  | Failed_to_borrow string pynum
  | Already_at_target string
  | Error_occurred string

fun summary_of :: "outcome \<Rightarrow> summary_line" where
  \<comment> \<open>one line of the final report per result, in order; the number format is left out\<close>
  "summary_of (asset, st, amount) =
     (if st = ''success'' then Borrowed asset amount
      else if st = ''failed'' then Failed_to_borrow asset amount
      else if st = ''no_action'' then Already_at_target asset
      else Error_occurred asset)"

definition targets :: "(string \<times> asset_config) list" where
  \<comment> \<open>a float literal denotes the double nearest to its decimal value\<close>
  "targets =
     [(''WBTC'', \<lparr>util = rnd (2091 / 100), decimals = 8, status = ''achieved''\<rparr>),
      (''WETH'', \<lparr>util = rnd (3019 / 100), decimals = 18, status = ''pending''\<rparr>),
      (''IDRX'', \<lparr>util = rnd (5914 / 100), decimals = 6, status = ''pending''\<rparr>),
      (''GOLD'', \<lparr>util = rnd (1210 / 100), decimals = 6, status = ''pending''\<rparr>),
      (''SILVER'', \<lparr>util = rnd (5418 / 100), decimals = 6, status = ''pending''\<rparr>),
      (''GOOGL'', \<lparr>util = rnd (2554 / 100), decimals = 6, status = ''pending''\<rparr>),
      (''NVDA'', \<lparr>util = rnd (3023 / 100), decimals = 6, status = ''pending''\<rparr>),
      (''AAPL'', \<lparr>util = rnd (1377 / 100), decimals = 6, status = ''pending''\<rparr>),
      (''MNT'', \<lparr>util = rnd (2509 / 100), decimals = 6, status = ''pending''\<rparr>)]"

definition main :: "world \<Rightarrow> (string \<rightharpoonup> string) \<Rightarrow> string \<Rightarrow> string option
    \<Rightarrow> event list \<times> summary_line list" where
  "main w deployments router private_key =
     (let (h, results) = main_loop w deployments router private_key targets
      in (h, map summary_of results))"

definition script :: "world \<Rightarrow> pyexc + (string \<rightharpoonup> string) \<Rightarrow> string option
    \<Rightarrow> pyexc + event list \<times> summary_line list" where
  \<comment> \<open>the module level: the deployments are loaded (or the load raises), the router is looked
      up, the private key is read from the environment (\<open>None\<close> when it is unset), and
      \<^verbatim>\<open>main\<close> runs\<close>
  "script w loaded private_key =
     bind loaded (\<lambda>deployments.
       case deployments ''ScaleXRouter'' of
         None \<Rightarrow> Inl (Exc KeyError ''ScaleXRouter'')
       | Some router \<Rightarrow> Inr (main w deployments router private_key))"

section \<open>Vocabulary of the properties\<close>

definition processed :: "(string \<rightharpoonup> string) \<Rightarrow> string \<times> asset_config \<Rightarrow> bool" where
  \<comment> \<open>the asset is not marked as achieved and the deployments give it a non-empty address\<close>
  "processed deployments entry =
     (status (snd entry) \<noteq> ''achieved'' \<and>
      (case deployments (fst entry) of None \<Rightarrow> False | Some token_address \<Rightarrow> token_address \<noteq> []))"

fun line_asset :: "summary_line \<Rightarrow> string" where
  "line_asset (Borrowed a x) = a"
| "line_asset (Failed_to_borrow a x) = a"
| "line_asset (Already_at_target a) = a"
| "line_asset (Error_occurred a) = a"

fun is_borrow_call :: "event \<Rightarrow> bool" where
  "is_borrow_call (Call_borrow_asset t a) = True"
| "is_borrow_call e = False"

fun is_subprocess :: "event \<Rightarrow> bool" where
  "is_subprocess (Subprocess argv) = True"
| "is_subprocess e = False"

definition is_read_argv :: "string list \<Rightarrow> bool" where
  \<comment> \<open>an invocation \<^verbatim>\<open>cast call ...\<close>, a read-only query\<close>
  "is_read_argv argv = (take 2 argv = [''cast'', ''call''])"

definition uint256 :: "int \<Rightarrow> bool" where
  \<comment> \<open>the range of the values that the two queries of \<open>get_pool_state\<close> decode\<close>
  "uint256 n = (0 \<le> n \<and> n < 2 ^ 256)"

definition borrows_positive :: "event list \<Rightarrow> bool" where
  \<comment> \<open>every recorded entry into \<open>borrow_asset\<close> carries a strictly positive amount\<close>
  "borrows_positive h = (\<forall>t n. Call_borrow_asset t n \<in> set h \<longrightarrow> 0 < n)"

definition silent_world :: world where
  \<comment> \<open>a world in which the external tool cannot be started\<close>
  "silent_world h argv = Raises (Exc OtherException ''cast: command not found'')"

text \<open>A small configuration and a world that answers it, for concrete runs.\<close>

definition example_world :: world where
  "example_world h argv =
     (if ''totalLiquidity(address)(uint256)'' \<in> set argv then Completed 0 ''1000\<newline>'' []
      else if ''totalBorrowed(address)(uint256)'' \<in> set argv then Completed 0 ''200\<newline>'' []
      else Completed 0 ''status 1\<newline>transactionHash 0xabc\<newline>'' [])"

definition example_deployments :: "string \<rightharpoonup> string" where
  "example_deployments = [''ScaleXRouter'' \<mapsto> ''0xR'', ''TKN'' \<mapsto> ''0xT'']"

definition example_targets :: "(string \<times> asset_config) list" where
  "example_targets = [(''TKN'', \<lparr>util = Fin 50, decimals = 0, status = ''pending''\<rparr>)]"

definition partial_deployments :: "string \<rightharpoonup> string" where
  \<comment> \<open>deployments that know the router and one asset of the table only\<close>
  "partial_deployments = [''ScaleXRouter'' \<mapsto> ''0xR'', ''WETH'' \<mapsto> ''0xW'']"

section \<open>Rounding to the nearest double\<close>

lemma powi_mono: "a \<le> b \<Longrightarrow> (2::rat) powi a \<le> 2 powi b"
  by (rule power_int_increasing) simp_all

lemma powi_strict_mono: "a < b \<Longrightarrow> (2::rat) powi a < 2 powi b"
  by (rule power_int_strict_increasing) simp_all

lemma powi_pos [simp]: "0 < (2::rat) powi a"
  by (simp add: zero_less_power_int)

lemma powi_unique:
  assumes "(2::rat) powi a \<le> x" "x < 2 powi (a + 1)" "2 powi b \<le> x" "x < 2 powi (b + 1)"
  shows "a = b"
proof (rule ccontr)
  assume "a \<noteq> b"
  then consider "a + 1 \<le> b" | "b + 1 \<le> a" by linarith
  then show False
  proof cases
    case 1
    then have "(2::rat) powi (a + 1) \<le> 2 powi b" by (rule powi_mono)
    with assms show False by linarith
  next
    case 2
    then have "(2::rat) powi (b + 1) \<le> 2 powi a" by (rule powi_mono)
    with assms show False by linarith
  qed
qed

lemma ilog2_bounds:
  assumes "x \<noteq> 0"
  shows "2 powi (ilog2 x) \<le> \<bar>x\<bar> \<and> \<bar>x\<bar> < 2 powi (ilog2 x + 1)"
proof -
  obtain p q where pq: "quotient_of \<bar>x\<bar> = (p, q)" by (cases "quotient_of \<bar>x\<bar>")
  have q: "0 < q" using pq by (rule quotient_of_denom_pos)
  have xe: "\<bar>x\<bar> = of_int p / of_int q" using pq by (rule quotient_of_div)
  have p: "0 < p"
  proof -
    have "0 < \<bar>x\<bar>" using assms by simp
    then have "0 < (of_int p :: rat) / of_int q" using xe by simp
    then show ?thesis using q by (simp add: zero_less_divide_iff)
  qed
  define bp where "bp = bitlen p"
  define bq where "bq = bitlen q"
  have bp1: "1 \<le> bp" using p bitlen_eq_zero_iff[of p] bitlen_nonneg[of p] by (simp add: bp_def)
  have bq1: "1 \<le> bq" using q bitlen_eq_zero_iff[of q] bitlen_nonneg[of q] by (simp add: bq_def)
  have pb: "(2::rat) powi (bp - 1) \<le> of_int p" "of_int p < (2::rat) powi bp"
  proof -
    from bitlen_bounds[OF p] have a: "2 ^ nat (bp - 1) \<le> p" and b: "p < 2 ^ nat bp"
      by (simp_all add: bp_def)
    have "(of_int (2 ^ nat (bp - 1)) :: rat) \<le> of_int p" using a by (simp only: of_int_le_iff)
    then show "(2::rat) powi (bp - 1) \<le> of_int p" using bp1 by (simp add: power_int_def)
    have "(of_int p :: rat) < of_int (2 ^ nat bp)" using b by (simp only: of_int_less_iff)
    then show "of_int p < (2::rat) powi bp" using bp1 by (simp add: power_int_def)
  qed
  have qb: "(2::rat) powi (bq - 1) \<le> of_int q" "of_int q < (2::rat) powi bq"
  proof -
    from bitlen_bounds[OF q] have a: "2 ^ nat (bq - 1) \<le> q" and b: "q < 2 ^ nat bq"
      by (simp_all add: bq_def)
    have "(of_int (2 ^ nat (bq - 1)) :: rat) \<le> of_int q" using a by (simp only: of_int_le_iff)
    then show "(2::rat) powi (bq - 1) \<le> of_int q" using bq1 by (simp add: power_int_def)
    have "(of_int q :: rat) < of_int (2 ^ nat bq)" using b by (simp only: of_int_less_iff)
    then show "of_int q < (2::rat) powi bq" using bq1 by (simp add: power_int_def)
  qed
  have qpos: "(0::rat) < of_int q" using q by simp
  have lo: "(2::rat) powi (bp - bq - 1) \<le> \<bar>x\<bar>"
  proof -
    have "(2::rat) powi (bp - bq - 1) * of_int q \<le> 2 powi (bp - bq - 1) * 2 powi bq"
      using qb(2) by (intro mult_left_mono) simp_all
    also have "\<dots> = 2 powi (bp - 1)"
      by (simp add: power_int_add [symmetric])
    also have "\<dots> \<le> of_int p" by (rule pb(1))
    finally show ?thesis using qpos by (simp add: xe pos_le_divide_eq)
  qed
  have hi: "\<bar>x\<bar> < (2::rat) powi (bp - bq + 1)"
  proof -
    have "of_int p < (2::rat) powi bp" by (rule pb(2))
    also have "\<dots> = 2 powi (bp - bq + 1) * 2 powi (bq - 1)"
      by (simp add: power_int_add [symmetric])
    also have "\<dots> \<le> 2 powi (bp - bq + 1) * of_int q"
      using qb(1) by (intro mult_left_mono) simp_all
    finally show ?thesis using qpos by (simp add: xe pos_divide_less_eq)
  qed
  show ?thesis
  proof (cases "2 powi (bp - bq) \<le> \<bar>x\<bar>")
    case True
    then have "ilog2 x = bp - bq" by (simp add: ilog2_def pq bp_def bq_def Let_def)
    then show ?thesis using True hi by simp
  next
    case False
    then have "ilog2 x = bp - bq - 1" by (simp add: ilog2_def pq bp_def bq_def Let_def)
    then show ?thesis using False lo by simp
  qed
qed

lemma ilog2_eqI:
  assumes "2 powi e \<le> \<bar>x\<bar>" "\<bar>x\<bar> < 2 powi (e + 1)"
  shows "ilog2 x = e"
proof -
  have "(0::rat) < 2 powi e" by simp
  with assms(1) have "0 < \<bar>x\<bar>" by linarith
  then have "x \<noteq> 0" by auto
  from ilog2_bounds[OF this] assms show ?thesis by (metis powi_unique)
qed


lemma rhe_of_int [simp]: "round_half_even (of_int n) = n"
  by (simp add: round_half_even_def)

lemma rhe_disj:
  "(round_half_even q = \<lfloor>q\<rfloor> \<and> q - of_int \<lfloor>q\<rfloor> \<le> 1 / 2) \<or>
   (round_half_even q = \<lfloor>q\<rfloor> + 1 \<and> 1 / 2 \<le> q - of_int \<lfloor>q\<rfloor>)"
proof -
  consider "q - of_int \<lfloor>q\<rfloor> < 1 / 2" | "1 / 2 < q - of_int \<lfloor>q\<rfloor>" | "q - of_int \<lfloor>q\<rfloor> = 1 / 2"
    by linarith
  then show ?thesis
    by cases (simp_all add: round_half_even_def Let_def)
qed

lemma rhe_cases:
  obtains (down) "round_half_even q = \<lfloor>q\<rfloor>" "q - of_int \<lfloor>q\<rfloor> \<le> 1 / 2"
  | (up) "round_half_even q = \<lfloor>q\<rfloor> + 1" "1 / 2 \<le> q - of_int \<lfloor>q\<rfloor>"
  using rhe_disj[of q] by blast

lemma rhe_error: "\<bar>q - of_int (round_half_even q)\<bar> \<le> 1 / 2"
proof (cases q rule: rhe_cases)
  case down
  have "of_int \<lfloor>q\<rfloor> \<le> q" by simp
  with down show ?thesis by simp
next
  case up
  have "q < of_int \<lfloor>q\<rfloor> + 1" by linarith
  with up show ?thesis by simp
qed

lemma rhe_eqI:
  assumes "\<bar>q - of_int m\<bar> < 1 / 2"
  shows "round_half_even q = m"
proof -
  have "\<bar>q - of_int (round_half_even q)\<bar> \<le> 1 / 2" by (rule rhe_error)
  with assms have "\<bar>(of_int m :: rat) - of_int (round_half_even q)\<bar> < 1" by linarith
  then have "\<bar>of_int (m - round_half_even q) :: rat\<bar> < 1" by simp
  then have "\<bar>m - round_half_even q\<bar> < 1" by (metis of_int_abs of_int_less_1_iff)
  then show ?thesis by linarith
qed

lemma rhe_mono:
  assumes "q \<le> r"
  shows "round_half_even q \<le> round_half_even r"
proof (cases "\<lfloor>q\<rfloor> = \<lfloor>r\<rfloor>")
  case True
  with assms show ?thesis
    by (auto simp: round_half_even_def Let_def)
next
  case False
  with assms have lt: "\<lfloor>q\<rfloor> + 1 \<le> \<lfloor>r\<rfloor>" using floor_mono[OF assms] by linarith
  have "round_half_even q \<le> \<lfloor>q\<rfloor> + 1" by (cases q rule: rhe_cases) simp_all
  moreover have "\<lfloor>r\<rfloor> \<le> round_half_even r" by (cases r rule: rhe_cases) simp_all
  ultimately show ?thesis using lt by linarith
qed

lemma rhe_minus: "round_half_even (- q) = - round_half_even q"
proof (cases "q = of_int \<lfloor>q\<rfloor>")
  case True
  then obtain n where "q = of_int n" ..
  then have "- q = of_int (- n)" by simp
  then show ?thesis unfolding \<open>q = of_int n\<close> by (metis rhe_of_int)
next
  case False
  then have fl: "\<lfloor>- q\<rfloor> = - \<lfloor>q\<rfloor> - 1"
    by (metis ceiling_altdef ceiling_def add_diff_cancel_right' minus_diff_eq diff_minus_eq_add minus_add_distrib uminus_add_conv_diff)
  show ?thesis
    by (auto simp: round_half_even_def Let_def fl)
qed


lemma ulp_pos [simp]: "0 < ulp x"
  by (simp add: ulp_def)

lemma ulp_nz [simp]: "ulp x \<noteq> 0"
  using ulp_pos[of x] by linarith

lemma ilog2_minus [simp]: "ilog2 (- x) = ilog2 x"
  by (simp add: ilog2_def)

lemma ulp_minus [simp]: "ulp (- x) = ulp x"
  by (simp add: ulp_def)

lemma nearest_minus: "nearest (- x) = - nearest x"
  by (simp add: nearest_def rhe_minus)

lemma rhe_0 [simp]: "round_half_even 0 = 0"
  using rhe_of_int[of 0] by simp

lemma nearest_0 [simp]: "nearest 0 = 0"
  by (simp add: nearest_def)

lemma powi_diff_int:
  assumes "j \<le> k"
  shows "(2::rat) powi k / 2 powi j = of_int (2 ^ nat (k - j))"
proof -
  have "(2::rat) powi k / 2 powi j = 2 powi (k - j)"
    by (simp add: power_int_diff)
  also have "\<dots> = 2 ^ nat (k - j)" using assms by (simp add: power_int_def)
  finally show ?thesis by simp
qed

lemma nearest_dyadic:
  assumes x: "x = of_int m * 2 powi k" and m: "\<bar>m\<bar> < 2 ^ 53" and k: "- 1074 \<le> k"
  shows "nearest x = x"
proof (cases "m = 0")
  case True
  then show ?thesis by (simp add: x)
next
  case False
  define j where "j = max (- 1022) (ilog2 x) - 52"
  have u: "ulp x = 2 powi j" by (simp add: ulp_def j_def)
  have x0: "x \<noteq> 0" using False by (simp add: x)
  have "\<bar>x\<bar> = of_int \<bar>m\<bar> * 2 powi k" by (simp add: x abs_mult)
  also have "\<dots> < 2 ^ 53 * 2 powi k"
  proof -
    have "(of_int \<bar>m\<bar> :: rat) < of_int (2 ^ 53)" using m by (simp only: of_int_less_iff)
    then show ?thesis by simp
  qed
  also have "\<dots> = 2 powi (53 + k)" by (simp add: power_int_add)
  finally have hi: "\<bar>x\<bar> < 2 powi (53 + k)" .
  have "ilog2 x < 53 + k"
  proof (rule ccontr)
    assume "\<not> ilog2 x < 53 + k"
    then have "(2::rat) powi (53 + k) \<le> 2 powi (ilog2 x)" by (intro powi_mono) simp
    also have "\<dots> \<le> \<bar>x\<bar>" using ilog2_bounds[OF x0] by simp
    finally show False using hi by simp
  qed
  with k have jk: "j \<le> k" by (simp add: j_def)
  have "x / ulp x = x / 2 powi j" by (simp only: u)
  also have "\<dots> = of_int m * (2 powi k / 2 powi j)" by (simp add: x)
  also have "\<dots> = of_int (m * 2 ^ nat (k - j))"
    by (simp only: powi_diff_int[OF jk] of_int_mult)
  finally have q: "x / ulp x = of_int (m * 2 ^ nat (k - j))" .
  have "nearest x = of_int (m * 2 ^ nat (k - j)) * ulp x"
    by (simp only: nearest_def q rhe_of_int)
  also have "\<dots> = x / ulp x * ulp x" by (simp only: q)
  also have "\<dots> = x" by simp
  finally show ?thesis .
qed

lemma rnd_dyadic:
  assumes x: "x = of_int m * 2 powi k" and m: "\<bar>m\<bar> < 2 ^ 53" and k: "- 1074 \<le> k" "k \<le> 971"
  shows "rnd x = Fin x"
proof -
  have n: "nearest x = x" using x m k(1) by (rule nearest_dyadic)
  have "\<bar>x\<bar> = of_int \<bar>m\<bar> * 2 powi k" by (simp add: x abs_mult)
  also have "\<dots> \<le> of_int \<bar>m\<bar> * 2 powi 971"
    using k(2) by (intro mult_left_mono powi_mono) simp_all
  also have "\<dots> < 2 ^ 53 * 2 powi 971"
  proof -
    have "(of_int \<bar>m\<bar> :: rat) < of_int (2 ^ 53)" using m by (simp only: of_int_less_iff)
    then show ?thesis by simp
  qed
  also have "\<dots> = 2 ^ 1024" by (simp add: power_int_def flip: power_add)
  finally have "\<bar>x\<bar> < 2 ^ 1024" .
  then show ?thesis by (simp add: rnd_def n Let_def abs_less_iff not_le) 
qed

lemma rnd_of_int:
  assumes "\<bar>n\<bar> < 2 ^ 53"
  shows "rnd (of_int n) = Fin (of_int n)"
  by (rule rnd_dyadic[where m = n and k = 0]) (use assms in simp_all)

lemma rnd_numeral [simp]:
  "numeral w < (2::int) ^ 53 \<Longrightarrow> rnd (numeral w) = Fin (numeral w)"
  using rnd_of_int[of "numeral w"] by simp

lemma rnd_neg_numeral [simp]:
  "numeral w < (2::int) ^ 53 \<Longrightarrow> rnd (- numeral w) = Fin (- numeral w)"
  using rnd_of_int[of "- numeral w"] by simp

lemma rnd_0 [simp]: "rnd 0 = Fin 0"
  using rnd_of_int[of 0] by simp

lemma rnd_1 [simp]: "rnd 1 = Fin 1"
  using rnd_of_int[of 1] by simp

lemma rnd_half [simp]: "rnd (1 / 2) = Fin (1 / 2)"
  by (rule rnd_dyadic[where m = 1 and k = "- 1"]) (simp_all add: power_int_minus)


section \<open>The run\<close>

declare str_nat.simps [simp del]

subsection \<open>Histories only grow\<close>

lemma check_output_history: "snd (check_output w argv h) = h @ [Subprocess argv]"
  by (simp add: check_output_def)

lemma get_pool_state_history:
  "\<exists>evs. snd (get_pool_state w t h) = h @ Call_get_pool_state t # evs \<and>
         (\<forall>e \<in> set evs. \<exists>argv. e = Subprocess argv \<and> is_read_argv argv)"
  by (auto simp: get_pool_state_def check_output_def Let_def is_read_argv_def split: sum.splits prod.splits)

lemma subprocess_run_history:
  "snd (subprocess_run w args h) = (if None \<in> set args then h else h @ [Subprocess (map the args)])"
  by (simp add: subprocess_run_def Let_def)

lemma borrow_asset_history:
  "snd (borrow_asset w r pk t a h) =
     h @ Call_borrow_asset t a #
       (if pk = None then [] else [Subprocess (map the (borrow_argv r pk t a))])"
  by (auto simp: borrow_asset_def borrow_body_def subprocess_run_def Let_def borrow_argv_def
      split: prod.splits)


subsection \<open>One iteration\<close>

lemma process_asset_skip:
  "\<not> processed deps e \<Longrightarrow> process_asset w deps r pk st e = st"
  by (cases st; cases e) (auto simp: process_asset_def processed_def split: option.splits)

lemma process_asset_record:
  assumes "processed deps (a, c)"
  shows "\<exists>h' s amt. process_asset w deps r pk (h, rs) (a, c) = (h', rs @ [(a, s, amt)])"
  using assms
  by (auto simp: process_asset_def processed_def Let_def split: option.splits prod.splits sum.splits)

lemma foldl_process_assets:
  "map fst (snd (foldl (process_asset w deps r pk) st tgts)) =
     map fst (snd st) @ map fst (filter (processed deps) tgts)"
proof (induction tgts arbitrary: st)
  case Nil
  then show ?case by simp
next
  case (Cons e tgts)
  obtain h rs where st: "st = (h, rs)" by (cases st)
  obtain a c where e: "e = (a, c)" by (cases e)
  show ?case
  proof (cases "processed deps e")
    case True
    then obtain h' s amt where "process_asset w deps r pk (h, rs) (a, c) = (h', rs @ [(a, s, amt)])"
      using process_asset_record[of deps a c w r pk h rs] by (auto simp: e)
    then show ?thesis using True by (simp add: Cons.IH st e)
  next
    case False
    then show ?thesis by (simp add: Cons.IH process_asset_skip)
  qed
qed

lemma process_asset_borrows_positive:
  assumes "borrows_positive h"
  shows "borrows_positive (fst (process_asset w deps r pk (h, rs) e))"
proof -
  obtain a c where e: "e = (a, c)" by (cases e)
  have gp: "\<And>t. borrows_positive (snd (get_pool_state w t h))"
  proof -
    fix t
    from get_pool_state_history[of w t h] obtain evs where
      "snd (get_pool_state w t h) = h @ Call_get_pool_state t # evs"
      "\<forall>e \<in> set evs. \<exists>argv. e = Subprocess argv \<and> is_read_argv argv" by blast
    then show "borrows_positive (snd (get_pool_state w t h))"
      using assms by (auto simp: borrows_positive_def)
  qed
  have ba: "\<And>t n h1. borrows_positive h1 \<Longrightarrow> 0 < n \<Longrightarrow> borrows_positive (snd (borrow_asset w r pk t n h1))"
    by (auto simp: borrow_asset_history borrows_positive_def)
  show ?thesis
    unfolding e process_asset_def
    using assms gp ba
    by (auto simp: Let_def split: option.splits prod.splits sum.splits)
      (metis snd_conv)+
qed


section \<open>Claims\<close>

text \<open>
  C5. An asset whose configured status is \<open>achieved\<close> triggers neither a pool-state read nor
  a borrow: its iteration leaves the history of events and the results as they were, and
  the whole run is the run of the configuration without that asset.
\<close>

theorem achieved_asset_no_network:
  assumes "status config = ''achieved''"
  shows "process_asset w deps r pk (h, rs) (asset, config) = (h, rs) \<and>
         main_loop w deps r pk (pre @ (asset, config) # post) = main_loop w deps r pk (pre @ post)"
proof -
  have "\<not> processed deps (asset, config)" using assms by (simp add: processed_def)
  then have "\<And>st. process_asset w deps r pk st (asset, config) = st"
    by (rule process_asset_skip)
  then show ?thesis by (simp add: main_loop_def)
qed

theorem achieved_asset_no_network_witness:
  "status \<lparr>util = Fin 20, decimals = 8, status = ''achieved''\<rparr> = ''achieved'' \<and>
   process_asset silent_world Map.empty ''0xR'' None ([], [])
     (''WBTC'', \<lparr>util = Fin 20, decimals = 8, status = ''achieved''\<rparr>) = ([], []) \<and>
   main_loop silent_world Map.empty ''0xR'' None
     ([] @ (''WBTC'', \<lparr>util = Fin 20, decimals = 8, status = ''achieved''\<rparr>) # []) =
   main_loop silent_world Map.empty ''0xR'' None ([] @ [])"
  using achieved_asset_no_network
    [of "\<lparr>util = Fin 20, decimals = 8, status = ''achieved''\<rparr>" silent_world Map.empty
        "''0xR''" None "[]" "[]" "''WBTC''" "[]" "[]"]
  by simp

subsection \<open>A concrete run\<close>

lemma first_token_1000: "first_token ''1000\<newline>'' = Inr ''1000''"
  by (simp add: first_token_def py_strip_def py_split_def py_isspace_def index0_def)

lemma first_token_200: "first_token ''200\<newline>'' = Inr ''200''"
  by (simp add: first_token_def py_strip_def py_split_def py_isspace_def index0_def)

lemma int_of_str_1000: "int_of_str ''1000'' = Inr 1000"
  by (simp add: int_of_str_def py_strip_def py_isspace_def digit_val_def)

lemma int_of_str_200: "int_of_str ''200'' = Inr 200"
  by (simp add: int_of_str_def py_strip_def py_isspace_def digit_val_def)

lemma str_int_300: "str_int 300 = ''300''"
  by (simp add: str_int_def str_nat.simps[of 300] str_nat.simps[of 30] str_nat.simps[of 3]
      digit_char_def)

lemma example_read:
  "get_pool_state example_world ''0xT'' h =
     (Inr (1000, 200),
      h @ [Call_get_pool_state ''0xT'',
           Subprocess [''cast'', ''call'', LENDING_MANAGER, ''totalLiquidity(address)(uint256)'',
              ''0xT'', ''--rpc-url'', RPC_URL],
           Subprocess [''cast'', ''call'', LENDING_MANAGER, ''totalBorrowed(address)(uint256)'',
              ''0xT'', ''--rpc-url'', RPC_URL]])"
  by (simp add: get_pool_state_def check_output_def example_world_def bind_def
      first_token_1000 first_token_200 int_of_str_1000 int_of_str_200 LENDING_MANAGER_def RPC_URL_def)

lemma example_calculate:
  "\<exists>p. calculate 1000 200 (Fin 50) 0 = Inr p \<and> additional_borrow_raw p = 300 \<and>
       additional_borrow p = PyFloat (Fin 300)"
  by (simp add: calculate_def bind_def int_truediv_def float_of_int_def fdiv_int_def
      fmul_int_def max0_def)

lemma example_borrow_no_key:
  "borrow_asset example_world ''0xR'' None ''0xT'' 300 h =
     (Inr (False, ''expected str, bytes or os.PathLike object, not NoneType''),
      h @ [Call_borrow_asset ''0xT'' 300])"
  by (simp add: borrow_asset_def borrow_body_def subprocess_run_def borrow_argv_def bind_def)

lemma example_borrow_key:
  "borrow_asset example_world ''0xR'' (Some ''0xK'') ''0xT'' 300 h =
     (Inr (True, ''transactionHash 0xabc''),
      h @ [Call_borrow_asset ''0xT'' 300,
           Subprocess [''cast'', ''send'', ''0xR'', ''borrow(address,uint256)'', ''0xT'', ''300'',
             ''--private-key'', ''0xK'', ''--rpc-url'', RPC_URL, ''--gas-limit'', ''2000000'']])"
  by (simp add: borrow_asset_def borrow_body_def subprocess_run_def borrow_argv_def bind_def
      example_world_def index0_def RPC_URL_def str_int_300 split_on_def)

lemma example_run_no_key:
  "main_loop example_world example_deployments ''0xR'' None example_targets =
     ([Call_get_pool_state ''0xT'',
       Subprocess [''cast'', ''call'', LENDING_MANAGER, ''totalLiquidity(address)(uint256)'',
              ''0xT'', ''--rpc-url'', RPC_URL],
       Subprocess [''cast'', ''call'', LENDING_MANAGER, ''totalBorrowed(address)(uint256)'',
              ''0xT'', ''--rpc-url'', RPC_URL],
       Call_borrow_asset ''0xT'' 300],
      [(''TKN'', ''failed'', PyFloat (Fin 300))])"
  using example_calculate
  by (auto simp: main_loop_def example_targets_def example_deployments_def process_asset_def
      example_read example_borrow_no_key bind_def)

lemma example_run_key:
  "main_loop example_world example_deployments ''0xR'' (Some ''0xK'') example_targets =
     ([Call_get_pool_state ''0xT'',
       Subprocess [''cast'', ''call'', LENDING_MANAGER, ''totalLiquidity(address)(uint256)'',
              ''0xT'', ''--rpc-url'', RPC_URL],
       Subprocess [''cast'', ''call'', LENDING_MANAGER, ''totalBorrowed(address)(uint256)'',
              ''0xT'', ''--rpc-url'', RPC_URL],
       Call_borrow_asset ''0xT'' 300,
       Subprocess [''cast'', ''send'', ''0xR'', ''borrow(address,uint256)'', ''0xT'', ''300'',
             ''--private-key'', ''0xK'', ''--rpc-url'', RPC_URL, ''--gas-limit'', ''2000000'']],
      [(''TKN'', ''success'', PyFloat (Fin 300))])"
  using example_calculate
  by (auto simp: main_loop_def example_targets_def example_deployments_def process_asset_def
      example_read example_borrow_key bind_def)


subsection \<open>Claims about the run\<close>

lemma main_loop_borrows_positive:
  "borrows_positive (fst (foldl (process_asset w deps r pk) st tgts))" if "borrows_positive (fst st)"
  using that
proof (induction tgts arbitrary: st)
  case Nil
  then show ?case by simp
next
  case (Cons e tgts)
  obtain h rs where st: "st = (h, rs)" by (cases st)
  have "borrows_positive (fst (process_asset w deps r pk st e))"
    using Cons.prems process_asset_borrows_positive[of h w deps r pk rs e] by (simp add: st)
  then show ?case using Cons.IH by simp
qed

text \<open>
  C4. In every run, whatever the configuration and the answers of the network, every entry
  into the borrow executor carries a strictly positive amount.
\<close>

theorem borrow_only_positive_amounts:
  "Call_borrow_asset token_address amount \<in> set (fst (main_loop w deps r pk tgts)) \<Longrightarrow> 0 < amount"
  using main_loop_borrows_positive[of "([], [])" w deps r pk tgts]
  by (simp add: main_loop_def borrows_positive_def)

theorem borrow_only_positive_amounts_witness:
  "Call_borrow_asset ''0xT'' 300
     \<in> set (fst (main_loop example_world example_deployments ''0xR'' (Some ''0xK'') example_targets))
   \<and> (0::int) < 300"
  using borrow_only_positive_amounts
    [of "''0xT''" 300 example_world example_deployments "''0xR''" "Some ''0xK''" example_targets]
  by (simp add: example_run_key)

subsection \<open>The borrow executor\<close>

lemma contains_iff_sublist: "contains sub s \<longleftrightarrow> sublist sub s"
  by (induction s) (simp_all add: sublist_Cons_right)

lemma split_on_acc_sublist:
  assumes "sublist sub (cur @ s)" "c \<notin> set sub"
  shows "\<exists>l \<in> set (split_on_acc c cur s). sublist sub l"
  using assms(1)
proof (induction s arbitrary: cur)
  case Nil
  then show ?case by simp
next
  case (Cons x xs)
  show ?case
  proof (cases "x = c")
    case False
    with Cons.IH[of "cur @ [x]"] Cons.prems show ?thesis by simp
  next
    case True
    from Cons.prems consider "sublist sub cur" | "sublist sub (c # xs)"
      | xs1 xs2 where "sub = xs1 @ xs2" "suffix xs1 cur" "prefix xs2 (c # xs)"
      unfolding True sublist_append by blast
    then show ?thesis
    proof cases
      case 1
      then show ?thesis by (simp add: True)
    next
      case 2
      then consider "prefix sub (c # xs)" | "sublist sub xs" by (auto simp: sublist_Cons_right)
      then show ?thesis
      proof cases
        case 1
        then have "sub = []" using assms(2) by (cases sub) auto
        then show ?thesis by (auto simp: True)
      next
        case 2
        with Cons.IH[of "[]"] show ?thesis by (auto simp: True)
      qed
    next
      case 3
      from 3(3) have "xs2 = []" using assms(2) 3(1) by (cases xs2) auto
      with 3 have "sublist sub cur" by (simp add: suffix_imp_sublist)
      then show ?thesis by (simp add: True)
    qed
  qed
qed

lemma first_line_with:
  assumes "contains sub out" "c \<notin> set sub"
  shows "\<exists>line. index0 (filter (contains sub) (split_on c out)) = Inr line \<and>
               line \<in> set (split_on c out) \<and> contains sub line"
proof -
  from assms have "\<exists>l \<in> set (split_on_acc c [] out). sublist sub l"
    by (intro split_on_acc_sublist) (simp_all add: contains_iff_sublist)
  then have "filter (contains sub) (split_on c out) \<noteq> []"
    by (auto simp: filter_empty_conv contains_iff_sublist split_on_def)
  then obtain line rest where lr: "filter (contains sub) (split_on c out) = line # rest"
    by (cases "filter (contains sub) (split_on c out)") auto
  then have "line \<in> set (filter (contains sub) (split_on c out))" by simp
  then have "line \<in> set (split_on c out) \<and> contains sub line" by simp
  then show ?thesis by (simp add: index0_def lr)
qed

text \<open>
  C10. The borrow executor always returns a pair and never raises: when the tool cannot be
  run (it raises, times out, or the private key is missing) the result is \<open>False\<close> with the
  text of the exception; when the tool completes, the result is \<open>True\<close> with the first line
  of its output holding \<open>transactionHash\<close> exactly when that text occurs in the standard
  output, and \<open>False\<close> with the standard error otherwise.
\<close>

theorem borrow_asset_never_raises:
  "(case fst (subprocess_run w (borrow_argv r pk t a) (h @ [Call_borrow_asset t a])) of
      Inl e \<Rightarrow> fst (borrow_asset w r pk t a h) = Inr (False, str_exc e)
    | Inr (out, err) \<Rightarrow>
        if contains ''transactionHash'' out
        then \<exists>line. fst (borrow_asset w r pk t a h) = Inr (True, line) \<and>
               line \<in> set (split_on (CHR 0x0A) out) \<and> contains ''transactionHash'' line
        else fst (borrow_asset w r pk t a h) = Inr (False, err)) \<and>
   fst (borrow_asset w r None t a h) =
     Inr (False, ''expected str, bytes or os.PathLike object, not NoneType'')"
proof -
  have nl: "CHR 0x0A \<notin> set ''transactionHash''" by simp
  have key: "fst (borrow_asset w r None t a h) =
     Inr (False, ''expected str, bytes or os.PathLike object, not NoneType'')"
    by (simp add: borrow_asset_def borrow_body_def subprocess_run_def borrow_argv_def bind_def)
  obtain res h1 where run: "subprocess_run w (borrow_argv r pk t a) (h @ [Call_borrow_asset t a]) = (res, h1)"
    by (cases "subprocess_run w (borrow_argv r pk t a) (h @ [Call_borrow_asset t a])")
  show ?thesis
  proof (cases res)
    case (Inl e)
    then show ?thesis using key
      by (simp add: borrow_asset_def borrow_body_def run bind_def)
  next
    case (Inr p)
    obtain out err where p: "p = (out, err)" by (cases p)
    show ?thesis
    proof (cases "contains ''transactionHash'' out")
      case True
      from first_line_with[OF True nl] obtain line where
        "index0 (filter (contains ''transactionHash'') (split_on (CHR 0x0A) out)) = Inr line"
        "line \<in> set (split_on (CHR 0x0A) out)" "contains ''transactionHash'' line" by blast
      then show ?thesis using key True
        by (simp add: borrow_asset_def borrow_body_def run Inr p bind_def)
    next
      case False
      then show ?thesis using key
        by (simp add: borrow_asset_def borrow_body_def run Inr p bind_def)
    qed
  qed
qed

subsection \<open>The records of a run\<close>

lemma silent_read:
  "get_pool_state silent_world t h =
     (Inl (Exc OtherException ''cast: command not found''),
      h @ [Call_get_pool_state t,
           Subprocess [''cast'', ''call'', LENDING_MANAGER, ''totalLiquidity(address)(uint256)'',
             t, ''--rpc-url'', RPC_URL]])"
  by (simp add: get_pool_state_def check_output_def silent_world_def bind_def)

lemma silent_process:
  assumes "processed deps (a, c)" "deps a = Some t"
  shows "process_asset silent_world deps r pk (h, rs) (a, c) =
     (h @ [Call_get_pool_state t,
           Subprocess [''cast'', ''call'', LENDING_MANAGER, ''totalLiquidity(address)(uint256)'',
             t, ''--rpc-url'', RPC_URL]],
      rs @ [(a, ''error'', PyInt 0)])"
  using assms by (simp add: process_asset_def processed_def silent_read bind_def)

lemma partial_processed:
  "filter (processed partial_deployments) targets =
     [(''WETH'', \<lparr>util = rnd (3019 / 100), decimals = 18, status = ''pending''\<rparr>)]"
  by (simp add: targets_def processed_def partial_deployments_def)

lemma partial_run:
  "main_loop silent_world partial_deployments ''0xR'' None targets =
     ([Call_get_pool_state ''0xW'',
       Subprocess [''cast'', ''call'', LENDING_MANAGER, ''totalLiquidity(address)(uint256)'',
             ''0xW'', ''--rpc-url'', RPC_URL]],
      [(''WETH'', ''error'', PyInt 0)])"
  by (simp add: main_loop_def targets_def process_asset_def partial_deployments_def
      silent_read bind_def)

text \<open>
  C6, as stated, fails: in the run of the configured table against deployments that hold
  only \<open>WETH\<close>, the final summary has a single line, for \<open>WETH\<close>; the asset marked as
  achieved (\<open>WBTC\<close>) and the seven assets without an address have none.
\<close>

theorem skipped_assets_have_no_record:
  "map fst targets =
     [''WBTC'', ''WETH'', ''IDRX'', ''GOLD'', ''SILVER'', ''GOOGL'', ''NVDA'', ''AAPL'', ''MNT''] \<and>
   map line_asset (snd (main silent_world partial_deployments ''0xR'' None)) = [''WETH'']"
  by (simp add: main_def partial_run) (simp add: targets_def)

text \<open>
  C6, amended. The results and the lines of the final summary are, in the configured order,
  exactly the assets that are not marked as achieved and have a non-empty address in the
  deployments, one record each, whatever the network answers; the iteration of any other
  asset leaves the results and the history of events as they were.
\<close>

theorem one_record_per_processed_asset:
  "map fst (snd (main_loop w deps r pk tgts)) = map fst (filter (processed deps) tgts) \<and>
   map line_asset (map summary_of (snd (main_loop w deps r pk tgts))) =
     map fst (filter (processed deps) tgts) \<and>
   (\<not> processed deps e \<longrightarrow> process_asset w deps r pk st e = st)"
proof -
  have a: "map fst (snd (main_loop w deps r pk tgts)) = map fst (filter (processed deps) tgts)"
    using foldl_process_assets[of w deps r pk "([], [])" tgts] by (simp add: main_loop_def)
  have ls: "line_asset \<circ> summary_of = (fst :: outcome \<Rightarrow> string)"
  proof
    fix x :: outcome
    obtain a s amt where "x = (a, s, amt)" by (cases x) auto
    then show "(line_asset \<circ> summary_of) x = fst x" by simp
  qed
  show ?thesis using a by (simp add: process_asset_skip ls)
qed

theorem one_record_per_processed_asset_witness:
  "map fst (snd (main_loop silent_world partial_deployments ''0xR'' None targets)) = [''WETH''] \<and>
   map line_asset (map summary_of (snd (main_loop silent_world partial_deployments ''0xR'' None targets)))
     = [''WETH''] \<and>
   \<not> processed partial_deployments (''IDRX'', \<lparr>util = Fin 59, decimals = 6, status = ''pending''\<rparr>) \<and>
   process_asset silent_world partial_deployments ''0xR'' None ([], [])
     (''IDRX'', \<lparr>util = Fin 59, decimals = 6, status = ''pending''\<rparr>) = ([], [])"
  using one_record_per_processed_asset[of silent_world partial_deployments "''0xR''" None targets
      "(''IDRX'', \<lparr>util = Fin 59, decimals = 6, status = ''pending''\<rparr>)" "([], [])"]
  by (simp add: partial_processed) (simp add: processed_def partial_deployments_def)

end
